theory Spec2Isabelle
  imports Complex_Main "HOL-Library.Sublist"
begin

section \<open>Python strings\<close>

text \<open>
  A Python \<open>str\<close> is modelled as a \<^typ>\<open>string\<close>, a list of characters with the code
  points 0 to 255. The string methods below follow Python on these code points:
  \<open>str.lower\<close> maps \<open>A\<close>..\<open>Z\<close> (65 to 90) and the capital letters 192 to 222, the
  multiplication sign 215 apart, to the code point 32 above; the whitespace of
  \<open>str.strip()\<close> and \<open>str.split()\<close> is the set of code points for which \<open>str.isspace\<close>
  holds (9 to 13, 28 to 32, 133 and 160).
  Python's \<open>float\<close> is idealised as \<^typ>\<open>real\<close>: true division and comparison are exact,
  and a power that exceeds the largest finite float raises \<open>OverflowError\<close>.
\<close>

datatype error = ZeroDivisionError | IndexError | KeyError | AttributeError | OverflowError

definition space :: char where
  "space = CHR '' ''"

definition newline :: char where
  "newline = CHR 0x0A"

definition isspace :: "char \<Rightarrow> bool" where
  "isspace c = (let n = (of_char c :: nat)
                in (9 \<le> n \<and> n \<le> 13) \<or> (28 \<le> n \<and> n \<le> 32) \<or> n = 133 \<or> n = 160)"

definition char_lower :: "char \<Rightarrow> char" where
  "char_lower c = (let n = (of_char c :: nat)
                   in if (65 \<le> n \<and> n \<le> 90) \<or> (192 \<le> n \<and> n \<le> 222 \<and> n \<noteq> 215)
                      then char_of (n + 32) else c)"

text \<open>\<open>s.lower()\<close>\<close>

definition str_lower :: "string \<Rightarrow> string" where
  "str_lower s = map char_lower s"

text \<open>Removal of the leading and trailing characters that satisfy \<open>P\<close>.\<close>

definition strip_where :: "(char \<Rightarrow> bool) \<Rightarrow> string \<Rightarrow> string" where
  "strip_where P s = rev (dropWhile P (rev (dropWhile P s)))"

text \<open>\<open>s.strip()\<close>\<close>

definition str_strip :: "string \<Rightarrow> string" where
  "str_strip s = strip_where isspace s"

text \<open>\<open>s.strip(chars)\<close>, for a string \<open>chars\<close>\<close>

definition str_strip_chars :: "string \<Rightarrow> string \<Rightarrow> string" where
  "str_strip_chars chars s = strip_where (\<lambda>c. c \<in> set chars) s"

text \<open>\<open>s.split(sep)\<close> for a separator of one character: never the empty list.\<close>

fun str_split :: "char \<Rightarrow> string \<Rightarrow> string list" where
  "str_split sep [] = [[]]"
| "str_split sep (c # cs) =
     (if c = sep then [] # str_split sep cs
      else (case str_split sep cs of
              [] \<Rightarrow> [[c]]
            | w # ws \<Rightarrow> (c # w) # ws))"

text \<open>
  \<open>s.split()\<close>: the maximal runs of characters that are not whitespace; \<open>cur\<close> is the
  run being read, reversed.
\<close>

fun split_ws_from :: "string \<Rightarrow> string \<Rightarrow> string list" where
  "split_ws_from cur [] = (if cur = [] then [] else [rev cur])"
| "split_ws_from cur (c # cs) =
     (if isspace c
      then (if cur = [] then split_ws_from [] cs else rev cur # split_ws_from [] cs)
      else split_ws_from (c # cur) cs)"

definition str_split_ws :: "string \<Rightarrow> string list" where
  "str_split_ws s = split_ws_from [] s"

text \<open>\<open>sep.join(words)\<close> for a separator of one character\<close>

fun str_join :: "char \<Rightarrow> string list \<Rightarrow> string" where
  "str_join sep [] = []"
| "str_join sep [w] = w"
| "str_join sep (w # v # ws) = w @ sep # str_join sep (v # ws)"

text \<open>\<open>sub in s\<close>\<close>

fun str_in :: "string \<Rightarrow> string \<Rightarrow> bool" where
  "str_in sub [] = (sub = [])"
| "str_in sub (c # cs) = (prefix sub (c # cs) \<or> str_in sub cs)"

text \<open>
  \<open>s.replace(old, new)\<close> for a non-empty \<open>old\<close>: the occurrences are replaced from the
  left, without overlap.
\<close>

fun str_replace :: "string \<Rightarrow> string \<Rightarrow> string \<Rightarrow> string" where
  "str_replace old new [] = []"
| "str_replace old new (c # cs) =
     (if old \<noteq> [] \<and> prefix old (c # cs)
      then new @ str_replace old new (drop (length old - 1) cs)
      else c # str_replace old new cs)"

text \<open>\<open>a / b\<close> on two lengths: true division, which raises on a zero divisor.\<close>

definition truediv :: "nat \<Rightarrow> nat \<Rightarrow> error + real" where
  "truediv a b = (if b = 0 then Inl ZeroDivisionError else Inr (real a / real b))"

text \<open>The largest finite float, \<open>(2 - 2^-52) * 2^1023\<close>.\<close>

definition float_max :: real where
  "float_max = (2 ^ 53 - 1) * 2 ^ 971"

text \<open>\<open>10.0 ** x\<close>: the power, which raises when the result is out of the range of floats.\<close>

definition pow10 :: "real \<Rightarrow> error + real" where
  "pow10 x = (if 10 powr x > float_max then Inl OverflowError else Inr (10 powr x))"

section \<open>ModifyingSentences\<close>

definition lower_strip_sentence :: "string \<Rightarrow> string" where
  "lower_strip_sentence sentence = str_strip (str_lower sentence)"

definition get_words_from_sentence :: "string \<Rightarrow> string \<Rightarrow> string list" where
  "get_words_from_sentence sentence strip_characters =
     (let sent = lower_strip_sentence sentence
      in map (str_strip_chars strip_characters) (str_split space sent))"

definition remove_words_with_incorrect_substrings :: "string \<Rightarrow> string list \<Rightarrow> string" where
  "remove_words_with_incorrect_substrings sentence incorrect_word_substrings =
     (let words = str_split space sentence;
          words = filter (\<lambda>word. list_all (\<lambda>i_substr. \<not> str_in i_substr word)
                                    incorrect_word_substrings) words
      in str_join space words)"

definition remove_long_words :: "string \<Rightarrow> int \<Rightarrow> string" where
  "remove_long_words sentence length_word_cutoff =
     (let words = str_split space sentence;
          words = filter (\<lambda>word. int (length word) < length_word_cutoff) words
      in str_join space words)"

definition modifying_sentences :: "string \<Rightarrow> bool \<Rightarrow> string list \<Rightarrow> bool \<Rightarrow> int \<Rightarrow> string" where
  "modifying_sentences sentence cond_remove_words_with_incorrect_substrings
       incorrect_word_substrings cond_remove_long_words length_word_cutoff =
     (let sentence =
            (if cond_remove_words_with_incorrect_substrings
             then remove_words_with_incorrect_substrings sentence incorrect_word_substrings
             else sentence);
          sentence =
            (if cond_remove_long_words
             then remove_long_words sentence length_word_cutoff
             else sentence)
      in sentence)"

section \<open>OscarModifyingSentences\<close>

text \<open>
  The configuration of one language: an entry of the table \<open>parameters_filtering\<close>,
  with the keys that the program reads.
\<close>

record param =
  cond_remove_words_with_incorrect_substrings :: bool
  incorrect_word_substrings :: "string list"
  cond_remove_long_words :: bool
  length_word_cutoff :: int
  cond_check_empty :: bool
  strip_characters :: string
  cond_check_special_characters :: bool
  special_characters :: string
  special_characters_cutoff :: real
  cond_check_stopwords :: bool
  stopwords_min_cutoff :: real
  stopwords_max_cutoff :: real
  cond_check_badwords :: bool
  badwords_cutoff :: real
  cond_check_lang_id :: bool
  lang_id_cutoff :: real
  cond_check_perplexity :: bool
  perplexity_cutoff :: real

text \<open>
  The table \<open>parameters_filtering\<close> is imported from a module outside the source file:
  it is a parameter here, a dictionary from language ids to configurations.
\<close>

definition load_parameters :: "(string \<rightharpoonup> param) \<Rightarrow> string \<Rightarrow> error + param" where
  "load_parameters parameters_filtering lang_oscar_id =
     (case parameters_filtering lang_oscar_id of
        Some p \<Rightarrow> Inr p
      | None \<Rightarrow> (case parameters_filtering ''default'' of
                   Some p \<Rightarrow> Inr p
                 | None \<Rightarrow> Inl KeyError))"

text \<open>A field of an example: a string, or a value of another type.\<close>

datatype 'a pyval = Str string | Other 'a

record oscar_modifying_sentences =
  oms_lang_oscar_id :: string
  oms_param :: param

definition oscar_modifying_sentences_init ::
  "(string \<rightharpoonup> param) \<Rightarrow> string \<Rightarrow> error + oscar_modifying_sentences" where
  "oscar_modifying_sentences_init parameters_filtering lang_oscar_id =
     (case load_parameters parameters_filtering lang_oscar_id of
        Inl e \<Rightarrow> Inl e
      | Inr p \<Rightarrow> Inr \<lparr>oms_lang_oscar_id = lang_oscar_id, oms_param = p\<rparr>)"

text \<open>
  \<open>OscarModifyingSentences.__call__\<close>: the example is a dictionary, updated at the key
  \<open>"text"\<close> and returned. A text that is not a string has no method \<open>split\<close>: an enabled
  pass raises on it, and with both passes disabled it is stored back as it is.
\<close>

definition oscar_modifying_sentences_call ::
  "oscar_modifying_sentences \<Rightarrow> (string \<rightharpoonup> 'a pyval) \<Rightarrow> error + (string \<rightharpoonup> 'a pyval)" where
  "oscar_modifying_sentences_call self example =
     (case example ''text'' of
        None \<Rightarrow> Inl KeyError
      | Some (Other v) \<Rightarrow>
          if cond_remove_words_with_incorrect_substrings (oms_param self)
             \<or> cond_remove_long_words (oms_param self)
          then Inl AttributeError
          else Inr (example(''text'' \<mapsto> Other v))
      | Some (Str text) \<Rightarrow>
          Inr (example(''text'' \<mapsto> Str (modifying_sentences text
                 (cond_remove_words_with_incorrect_substrings (oms_param self))
                 (incorrect_word_substrings (oms_param self))
                 (cond_remove_long_words (oms_param self))
                 (length_word_cutoff (oms_param self))))))"

section \<open>Filtering\<close>

definition check_empty :: "string \<Rightarrow> string \<Rightarrow> bool" where
  "check_empty sentence strip_chars =
     (let sent = lower_strip_sentence sentence;
          words = get_words_from_sentence sentence strip_chars
      in length sent > 0 \<and> length words > 0)"

definition check_special_characters :: "string \<Rightarrow> string \<Rightarrow> real \<Rightarrow> error + bool" where
  "check_special_characters sentence special_chars special_chars_cutoff =
     (let sent = lower_strip_sentence sentence;
          set_special_characters = set special_chars
      in case truediv (length (filter (\<lambda>char. char \<in> set_special_characters) sent))
                      (length sent) of
           Inl e \<Rightarrow> Inl e
         | Inr special_characters_ratio \<Rightarrow>
             Inr (special_characters_ratio < special_chars_cutoff))"

text \<open>
  A lexicon is \<open>None\<close> or a set of words. In a condition, \<open>None\<close> and the empty set
  are false, and every other set is true.
\<close>

definition truthy :: "string set option \<Rightarrow> bool" where
  "truthy lexicon = (case lexicon of None \<Rightarrow> False | Some ws \<Rightarrow> ws \<noteq> {})"

text \<open>\<open>len([word for word in words if word in lexicon])\<close>\<close>

definition count_in :: "string set \<Rightarrow> string list \<Rightarrow> nat" where
  "count_in lexicon words = length (filter (\<lambda>word. word \<in> lexicon) words)"

definition check_stopwords ::
  "string \<Rightarrow> string \<Rightarrow> string set option \<Rightarrow> real \<Rightarrow> real \<Rightarrow> error + bool" where
  "check_stopwords sentence strip_chars stopwords min_cutoff max_cutoff =
     (if truthy stopwords
      then (let words = get_words_from_sentence sentence strip_chars
            in case truediv (count_in (the stopwords) words) (length words) of
                 Inl e \<Rightarrow> Inl e
               | Inr stopwords_ratio \<Rightarrow>
                   Inr (stopwords_ratio > min_cutoff \<and> stopwords_ratio < max_cutoff))
      else Inr True)"

definition check_badwords ::
  "string \<Rightarrow> string \<Rightarrow> string set option \<Rightarrow> real \<Rightarrow> error + bool" where
  "check_badwords sentence strip_chars badwords cutoff =
     (if truthy badwords
      then (let words = get_words_from_sentence sentence strip_chars
            in case truediv (count_in (the badwords) words) (length words) of
                 Inl e \<Rightarrow> Inl e
               | Inr badwords_ratio \<Rightarrow> Inr (badwords_ratio < cutoff))
      else Inr True)"

text \<open>
  The table \<open>langs_id\<close> is imported from a module outside the source file: it is a
  parameter here, a list of rows with the two columns that \<open>check_lang_id\<close> reads.
  The classifier is a function from a text to its labels and their scores.
\<close>

record lang_row =
  oscar_id :: string
  fasttext_id :: "string option"

type_synonym classifier = "string \<Rightarrow> string list \<times> real list"

definition check_lang_id ::
  "lang_row list \<Rightarrow> string \<Rightarrow> string \<Rightarrow> string \<Rightarrow> classifier option \<Rightarrow> real \<Rightarrow> error + bool" where
  "check_lang_id langs_id sentence strip_chars lang_oscar_id model_lang_id cutoff =
     (case model_lang_id of
        None \<Rightarrow> Inr True
      | Some predict \<Rightarrow>
          (let words = get_words_from_sentence sentence strip_chars;
               sent = str_replace [newline] [space] (str_join space words);
               pred = predict sent
           in case fst pred of
                [] \<Rightarrow> Inl IndexError
              | label # _ \<Rightarrow>
                  (let lang_pred_fasttext_id = str_replace ''__label__'' [] label
                   in case snd pred of
                        [] \<Rightarrow> Inl IndexError
                      | score_pred # _ \<Rightarrow>
                          (case filter (\<lambda>row. fasttext_id row = Some lang_pred_fasttext_id)
                                  langs_id of
                             [] \<Rightarrow> Inl IndexError
                           | row # _ \<Rightarrow>
                               Inr (oscar_id row = lang_oscar_id \<and> score_pred > cutoff)))))"

text \<open>
  The language model is a function from a line to its log score. The loop of
  \<open>get_perplexity_score\<close> carries \<open>(doc_log_score, doc_length)\<close>.
\<close>

type_synonym kenlm = "string \<Rightarrow> real"

fun perplexity_loop :: "kenlm \<Rightarrow> string list \<Rightarrow> real \<times> nat \<Rightarrow> real \<times> nat" where
  "perplexity_loop score [] acc = acc"
| "perplexity_loop score (line # lines) (doc_log_score, doc_length) =
     (let log_score = score line;
          len = length (str_split_ws line) + 1
      in perplexity_loop score lines (doc_log_score + log_score, doc_length + len))"

definition get_perplexity_score :: "string \<Rightarrow> kenlm \<Rightarrow> error + real" where
  "get_perplexity_score sentence kenlm_model =
     (case perplexity_loop kenlm_model (str_split newline sentence) (0, 0) of
        (doc_log_score, doc_length) \<Rightarrow>
          if doc_length = 0 then Inl ZeroDivisionError
          else pow10 (- doc_log_score / real doc_length))"

definition check_perplexity :: "string \<Rightarrow> kenlm option \<Rightarrow> real \<Rightarrow> error + bool" where
  "check_perplexity sentence kenlm_model cutoff =
     (case kenlm_model of
        None \<Rightarrow> Inr True
      | Some model \<Rightarrow>
          (case get_perplexity_score sentence model of
             Inl e \<Rightarrow> Inl e
           | Inr score \<Rightarrow> Inr (score < cutoff)))"

text \<open>
  \<open>Filtering.filtering\<close>: six blocks \<open>if cond: if not check: return False\<close>, then
  \<open>return True\<close>. A check that raises ends the function with its error.
\<close>

definition filtering ::
  "lang_row list \<Rightarrow> string \<Rightarrow> bool \<Rightarrow> string \<Rightarrow> bool \<Rightarrow> string \<Rightarrow> real \<Rightarrow>
   bool \<Rightarrow> string set option \<Rightarrow> real \<Rightarrow> real \<Rightarrow> bool \<Rightarrow> string set option \<Rightarrow> real \<Rightarrow>
   bool \<Rightarrow> string \<Rightarrow> classifier option \<Rightarrow> real \<Rightarrow> bool \<Rightarrow> kenlm option \<Rightarrow> real \<Rightarrow>
   error + bool" where
  "filtering langs_id sentence c_empty strip_chars c_special special_chars special_cutoff
       c_stopwords stopwords stopwords_min stopwords_max c_badwords badwords badwords_cut
       c_lang_id lang_oscar_id model_lang_id lang_id_cut c_perplexity kenlm_model perplexity_cut =
     (if c_empty \<and> \<not> check_empty sentence strip_chars then Inr False
      else case (if c_special
                 then check_special_characters sentence special_chars special_cutoff
                 else Inr True) of
        Inl e \<Rightarrow> Inl e
      | Inr ok \<Rightarrow> if \<not> ok then Inr False
      else case (if c_stopwords
                 then check_stopwords sentence strip_chars stopwords stopwords_min stopwords_max
                 else Inr True) of
        Inl e \<Rightarrow> Inl e
      | Inr ok \<Rightarrow> if \<not> ok then Inr False
      else case (if c_badwords
                 then check_badwords sentence strip_chars badwords badwords_cut
                 else Inr True) of
        Inl e \<Rightarrow> Inl e
      | Inr ok \<Rightarrow> if \<not> ok then Inr False
      else case (if c_lang_id
                 then check_lang_id langs_id sentence strip_chars lang_oscar_id model_lang_id
                        lang_id_cut
                 else Inr True) of
        Inl e \<Rightarrow> Inl e
      | Inr ok \<Rightarrow> if \<not> ok then Inr False
      else case (if c_perplexity
                 then check_perplexity sentence kenlm_model perplexity_cut
                 else Inr True) of
        Inl e \<Rightarrow> Inl e
      | Inr ok \<Rightarrow> if \<not> ok then Inr False
      else Inr True)"

text \<open>
  The composition as the specification words it: an ordered list of checks, each with
  its toggle, run by one loop that skips a disabled check, stops with \<open>False\<close> at the
  first enabled check that fails, and answers \<open>True\<close> at the end of the list. A check
  is a suspended computation, run only when the loop reaches it.
\<close>

fun run_checks :: "(bool \<times> (unit \<Rightarrow> error + bool)) list \<Rightarrow> error + bool" where
  "run_checks [] = Inr True"
| "run_checks ((enabled, check) # rest) =
     (if enabled
      then (case check () of
              Inl e \<Rightarrow> Inl e
            | Inr ok \<Rightarrow> if ok then run_checks rest else Inr False)
      else run_checks rest)"

section \<open>FuncOscarFiltering\<close>

text \<open>
  The resources bound for one language. The constructor reads them from files and
  tables outside the source file; the object is taken as it is after construction.
\<close>

record func_oscar_filtering =
  fof_lang_oscar_id :: string
  fof_stopwords :: "string set option"
  fof_badwords :: "string set option"
  fof_model_lang_id :: "classifier option"
  fof_kenlm_model :: "kenlm option"
  fof_param :: param

definition func_oscar_filtering_call ::
  "lang_row list \<Rightarrow> func_oscar_filtering \<Rightarrow> (string \<rightharpoonup> 'a pyval) \<Rightarrow> error + bool" where
  "func_oscar_filtering_call langs_id self example =
     (case example ''text'' of
        None \<Rightarrow> Inl KeyError
      | Some (Other v) \<Rightarrow> Inl AttributeError
      | Some (Str text) \<Rightarrow>
          filtering langs_id (str_strip text)
            (cond_check_empty (fof_param self))
            (strip_characters (fof_param self))
            (cond_check_special_characters (fof_param self))
            (special_characters (fof_param self))
            (special_characters_cutoff (fof_param self))
            (cond_check_stopwords (fof_param self))
            (fof_stopwords self)
            (stopwords_min_cutoff (fof_param self))
            (stopwords_max_cutoff (fof_param self))
            (cond_check_badwords (fof_param self))
            (fof_badwords self)
            (badwords_cutoff (fof_param self))
            (cond_check_lang_id (fof_param self))
            (fof_lang_oscar_id self)
            (fof_model_lang_id self)
            (lang_id_cutoff (fof_param self))
            (cond_check_perplexity (fof_param self))
            (fof_kenlm_model self)
            (perplexity_cutoff (fof_param self)))"

section \<open>Auxiliary notions of the proofs\<close>

text \<open>
  Both rewriting passes of \<open>ModifyingSentences\<close> have one shape: split on single
  spaces, keep the words that satisfy a predicate, join with single spaces.
\<close>

definition keep_words :: "(string \<Rightarrow> bool) \<Rightarrow> string \<Rightarrow> string" where
  "keep_words P s = str_join space (filter P (str_split space s))"

text \<open>
  The whitespace-token count of a line, as the specification words it and without
  building the tokens: the number of places where a token starts, that is, where a
  character that is not whitespace stands first in the line or follows a whitespace
  character. \<open>prev\<close> tells whether the place before is the start of the line or
  whitespace.
\<close>

fun token_starts :: "bool \<Rightarrow> string \<Rightarrow> nat" where
  "token_starts prev [] = 0"
| "token_starts prev (c # cs) =
     (if \<not> isspace c \<and> prev then 1 else 0) + token_starts (isspace c) cs"

definition token_count :: "string \<Rightarrow> nat" where
  "token_count line = token_starts True line"


section \<open>Splitting and joining\<close>

lemma str_split_not_Nil: "str_split sep s \<noteq> []"
  by (induction s) (auto split: list.splits)

lemma length_str_split_pos: "0 < length (str_split sep s)"
  using str_split_not_Nil [of sep s] by simp

lemma str_split_no_sep: "w \<in> set (str_split sep s) \<Longrightarrow> sep \<notin> set w"
proof (induction s arbitrary: w)
  case Nil
  then show ?case by simp
next
  case (Cons c cs)
  show ?case
  proof (cases "c = sep")
    case True
    with Cons show ?thesis by auto
  next
    case False
    obtain v vs where vs: "str_split sep cs = v # vs"
      using str_split_not_Nil [of sep cs] by (cases "str_split sep cs") auto
    with False Cons.prems have "w = c # v \<or> w \<in> set vs" by auto
    then show ?thesis
    proof
      assume "w = c # v"
      moreover have "sep \<notin> set v" using Cons.IH [of v] vs by simp
      ultimately show ?thesis using False by auto
    next
      assume "w \<in> set vs"
      then show ?thesis using Cons.IH [of w] vs by simp
    qed
  qed
qed

lemma str_split_word: "sep \<notin> set w \<Longrightarrow> str_split sep w = [w]"
  by (induction w) auto

lemma str_split_append:
  "sep \<notin> set w \<Longrightarrow> str_split sep (w @ sep # s) = w # str_split sep s"
  by (induction w) auto

lemma str_split_join:
  "ws \<noteq> [] \<Longrightarrow> \<forall>w \<in> set ws. sep \<notin> set w \<Longrightarrow> str_split sep (str_join sep ws) = ws"
proof (induction sep ws rule: str_join.induct)
  case (1 sep)
  then show ?case by simp
next
  case (2 sep w)
  then show ?case by (simp add: str_split_word)
next
  case (3 sep w v ws)
  then show ?case by (simp add: str_split_append)
qed

lemma str_join_split: "str_join sep (str_split sep s) = s"
proof (induction s)
  case Nil
  then show ?case by simp
next
  case (Cons c cs)
  obtain v vs where vs: "str_split sep cs = v # vs"
    using str_split_not_Nil [of sep cs] by (cases "str_split sep cs") auto
  show ?case
  proof (cases "c = sep")
    case True
    with Cons vs show ?thesis by simp
  next
    case False
    with Cons vs show ?thesis by (cases vs) auto
  qed
qed

lemma length_get_words: "0 < length (get_words_from_sentence s sc)"
  by (simp add: get_words_from_sentence_def str_split_not_Nil)

section \<open>The transformer\<close>

lemma keep_words_join:
  assumes "\<forall>w \<in> set ws. space \<notin> set w"
  shows "keep_words P (str_join space ws) = str_join space (filter P ws)"
proof (cases "ws = []")
  case True
  then show ?thesis by (simp add: keep_words_def)
next
  case False
  with assms show ?thesis by (simp add: keep_words_def str_split_join)
qed

lemma keep_words_fixed:
  assumes "\<forall>w \<in> set ws. space \<notin> set w" and "\<forall>w \<in> set ws. P w"
  shows "keep_words P (str_join space ws) = str_join space ws"
proof -
  have "filter P ws = ws" using assms(2) by (simp add: filter_id_conv)
  with keep_words_join [OF assms(1), of P] show ?thesis by simp
qed

lemma keep_words_idem: "keep_words P (keep_words P s) = keep_words P s"
proof -
  let ?ws = "filter P (str_split space s)"
  have "\<forall>w \<in> set ?ws. space \<notin> set w" by (auto dest: str_split_no_sep)
  moreover have "\<forall>w \<in> set ?ws. P w" by simp
  ultimately have "keep_words P (str_join space ?ws) = str_join space ?ws"
    by (rule keep_words_fixed)
  then show ?thesis by (simp add: keep_words_def)
qed

lemma keep_words_twice_idem:
  "keep_words Q (keep_words P (keep_words Q (keep_words P s))) = keep_words Q (keep_words P s)"
proof -
  let ?ws1 = "filter P (str_split space s)"
  let ?ws2 = "filter Q ?ws1"
  have n1: "\<forall>w \<in> set ?ws1. space \<notin> set w" by (auto dest: str_split_no_sep)
  have n2: "\<forall>w \<in> set ?ws2. space \<notin> set w" by (auto dest: str_split_no_sep)
  have t: "keep_words Q (keep_words P s) = str_join space ?ws2"
    using keep_words_join [OF n1, of Q] by (simp add: keep_words_def)
  have p: "keep_words P (str_join space ?ws2) = str_join space ?ws2"
    by (rule keep_words_fixed [OF n2]) simp
  have q: "keep_words Q (str_join space ?ws2) = str_join space ?ws2"
    by (rule keep_words_fixed [OF n2]) simp
  show ?thesis by (simp only: t p q)
qed

lemma remove_incorrect_keep:
  "remove_words_with_incorrect_substrings s subs =
     keep_words (\<lambda>word. list_all (\<lambda>i_substr. \<not> str_in i_substr word) subs) s"
  by (simp add: remove_words_with_incorrect_substrings_def keep_words_def)

lemma remove_long_keep:
  "remove_long_words s n = keep_words (\<lambda>word. int (length word) < n) s"
  by (simp add: remove_long_words_def keep_words_def)

text \<open>
  Claim C7. \<open>ModifyingSentences.modifying_sentences\<close> is idempotent: for every sentence,
  both toggles, every list of forbidden substrings and every length cutoff, applying
  the transformation to its own result changes nothing.
\<close>

theorem modifying_sentences_idempotent:
  "modifying_sentences (modifying_sentences sentence c1 subs c2 n) c1 subs c2 n =
     modifying_sentences sentence c1 subs c2 n"
  by (cases c1; cases c2)
     (simp_all add: modifying_sentences_def remove_incorrect_keep remove_long_keep
        keep_words_idem keep_words_twice_idem)

section \<open>Tokens and ratios\<close>

lemma get_words_not_Nil: "get_words_from_sentence s sc \<noteq> []"
  using length_get_words [of s sc] by simp

lemma check_empty_iff: "check_empty s sc = (lower_strip_sentence s \<noteq> [])"
  by (simp add: check_empty_def Let_def get_words_not_Nil)

lemma truediv_words:
  "truediv a (length (get_words_from_sentence s sc)) =
     Inr (real a / real (length (get_words_from_sentence s sc)))"
  by (simp add: truediv_def get_words_not_Nil)

text \<open>
  Claim C9. \<open>get_words_from_sentence\<close> returns at least one word for every input, the
  empty string included. So the token-count conjunct of \<open>check_empty\<close> always holds and
  \<open>check_empty\<close> passes exactly when the normalized text is not empty; and the divisions
  of \<open>check_stopwords\<close> and \<open>check_badwords\<close> never have a zero divisor: both checks
  return a verdict, never an error, whatever the lexicon and the cutoffs.
\<close>

theorem get_words_nonempty:
  "0 < length (get_words_from_sentence sentence sc)
   \<and> check_empty sentence sc = (lower_strip_sentence sentence \<noteq> [])
   \<and> (\<exists>ok. check_stopwords sentence sc sw mn mx = Inr ok)
   \<and> (\<exists>ok. check_badwords sentence sc bw c = Inr ok)"
  by (auto simp add: check_empty_iff get_words_not_Nil check_stopwords_def check_badwords_def
        Let_def truediv_words)

text \<open>
  Claim C4. When the normalized text has length \<open>L > 0\<close> and \<open>k\<close> of its characters are in
  the special-character set, \<open>check_special_characters\<close> passes exactly when \<open>k / L\<close> is
  strictly below the cutoff; with the cutoff equal to \<open>k / L\<close> the check fails.
\<close>

theorem check_special_characters_ratio:
  assumes "length (lower_strip_sentence sentence) = L" and "0 < L"
    and "length (filter (\<lambda>c. c \<in> set sp) (lower_strip_sentence sentence)) = k"
  shows "check_special_characters sentence sp cutoff = Inr (real k / real L < cutoff)
         \<and> check_special_characters sentence sp (real k / real L) = Inr False"
  using assms by (auto simp add: check_special_characters_def Let_def truediv_def)

text \<open>
  The sentence \<open>A!b?\<close> has two special characters among four: the ratio is a half. It
  fails the cutoffs 0.3 and 0.5 and passes the cutoff 0.6.
\<close>

theorem check_special_characters_ratio_witness:
  "check_special_characters ''A!b?'' ''!?'' (3 / 10) = Inr False
   \<and> check_special_characters ''A!b?'' ''!?'' (2 / 4) = Inr False
   \<and> check_special_characters ''A!b?'' ''!?'' (6 / 10) = Inr True"
proof -
  have l: "lower_strip_sentence ''A!b?'' = ''a!b?''"
    by code_simp
  have a: "length (lower_strip_sentence ''A!b?'') = 4" by (simp add: l)
  have b: "(0::nat) < 4" by simp
  have c: "length (filter (\<lambda>c. c \<in> set ''!?'') (lower_strip_sentence ''A!b?'')) = 2"
    by (simp add: l)
  show ?thesis
    using check_special_characters_ratio [OF a b c, of "3 / 10"]
      check_special_characters_ratio [OF a b c, of "6 / 10"]
    by simp
qed

text \<open>
  Claim C5. With a non-empty stopword lexicon, \<open>check_stopwords\<close> divides the number of
  words in the lexicon by the number of words, which is positive, and passes exactly
  when the ratio is strictly between the two cutoffs; with either cutoff equal to the
  ratio the check fails.
\<close>

theorem check_stopwords_strict:
  assumes "sw \<noteq> {}"
  shows "(let words = get_words_from_sentence sentence sc;
              ratio = real (count_in sw words) / real (length words)
          in 0 < length words
             \<and> check_stopwords sentence sc (Some sw) mn mx = Inr (mn < ratio \<and> ratio < mx)
             \<and> check_stopwords sentence sc (Some sw) ratio mx = Inr False
             \<and> check_stopwords sentence sc (Some sw) mn ratio = Inr False)"
  using assms
  by (simp add: check_stopwords_def truthy_def Let_def truediv_words get_words_not_Nil)

text \<open>
  \<open>The cat\<close> has one stopword among two words: the ratio is a half. It passes between
  0.25 and 0.75 and fails when either cutoff is 0.5.
\<close>

theorem check_stopwords_strict_witness:
  "check_stopwords ''The cat'' [] (Some {''the''}) (1 / 4) (3 / 4) = Inr True
   \<and> check_stopwords ''The cat'' [] (Some {''the''}) (1 / 2) (3 / 4) = Inr False
   \<and> check_stopwords ''The cat'' [] (Some {''the''}) (1 / 4) (1 / 2) = Inr False"
proof -
  have w: "get_words_from_sentence ''The cat'' [] = [''the'', ''cat'']"
    by code_simp
  have ne: "{''the''} \<noteq> ({} :: string set)" by simp
  show ?thesis
    using check_stopwords_strict [OF ne, of "''The cat''" "[]" "1 / 4" "3 / 4"]
    by (simp add: w count_in_def Let_def)
qed

text \<open>
  Claim C6, as stated: with an empty set as lexicon, \<open>check_stopwords\<close> and
  \<open>check_badwords\<close> still compute the ratio and compare it with the cutoffs. This
  fails: on the sentence \<open>a\<close> with the empty lexicon the ratio is \<open>0 / 1\<close>, which is
  neither above the minimum cutoff 0 nor below the badword cutoff 0, and yet both checks
  return \<open>True\<close>.
\<close>

theorem empty_lexicon_counterexample:
  "check_stopwords ''a'' [] (Some {}) 0 1 = Inr True
   \<and> \<not> (0 < real (count_in {} (get_words_from_sentence ''a'' [])) /
              real (length (get_words_from_sentence ''a'' [])))
   \<and> check_badwords ''a'' [] (Some {}) 0 = Inr True
   \<and> \<not> (real (count_in {} (get_words_from_sentence ''a'' [])) /
          real (length (get_words_from_sentence ''a'' [])) < 0)"
  by (simp add: check_stopwords_def check_badwords_def truthy_def count_in_def)

text \<open>
  Claim C6, amended. The condition \<open>if stopwords:\<close> is false for \<open>None\<close> and for the
  empty set alike: both checks are skipped and return \<open>True\<close> when the lexicon is absent
  or empty, and compare the ratio with the cutoffs for every other lexicon.
\<close>

theorem lexicon_skip:
  "check_stopwords sentence sc lexicon mn mx =
     (if lexicon = None \<or> lexicon = Some {} then Inr True
      else (let words = get_words_from_sentence sentence sc;
                ratio = real (count_in (the lexicon) words) / real (length words)
            in Inr (mn < ratio \<and> ratio < mx)))
   \<and> check_badwords sentence sc lexicon c =
     (if lexicon = None \<or> lexicon = Some {} then Inr True
      else (let words = get_words_from_sentence sentence sc;
                ratio = real (count_in (the lexicon) words) / real (length words)
            in Inr (ratio < c)))"
  by (cases lexicon)
     (auto simp add: check_stopwords_def check_badwords_def truthy_def Let_def truediv_words)

section \<open>Perplexity\<close>

lemma length_split_ws_from:
  "length (split_ws_from cur s) =
     (if cur = [] then token_starts True s else 1 + token_starts False s)"
  by (induction s arbitrary: cur) simp_all

lemma length_str_split_ws: "length (str_split_ws line) = token_count line"
  by (simp add: str_split_ws_def token_count_def length_split_ws_from)

lemma split_ws_from_tokens:
  "w \<in> set (split_ws_from cur s) \<Longrightarrow> \<forall>c \<in> set cur. \<not> isspace c \<Longrightarrow>
     w \<noteq> [] \<and> (\<forall>c \<in> set w. \<not> isspace c)"
proof (induction s arbitrary: cur)
  case Nil
  then show ?case by (cases "cur = []") auto
next
  case (Cons c cs)
  show ?case
  proof (cases "isspace c")
    case False
    with Cons.prems have "w \<in> set (split_ws_from (c # cur) cs)"
      and "\<forall>d \<in> set (c # cur). \<not> isspace d" by simp_all
    then show ?thesis by (rule Cons.IH)
  next
    case True
    have nil: "\<forall>d \<in> set ([] :: string). \<not> isspace d" by simp
    show ?thesis
    proof (cases "cur = []")
      case True
      with \<open>isspace c\<close> Cons.prems have "w \<in> set (split_ws_from [] cs)" by simp
      then show ?thesis using nil by (rule Cons.IH)
    next
      case False
      with \<open>isspace c\<close> Cons.prems have "w = rev cur \<or> w \<in> set (split_ws_from [] cs)" by simp
      then show ?thesis
      proof
        assume "w = rev cur"
        with False Cons.prems(2) show ?thesis by simp
      next
        assume "w \<in> set (split_ws_from [] cs)"
        then show ?thesis using nil by (rule Cons.IH)
      qed
    qed
  qed
qed

lemma str_split_ws_tokens:
  "w \<in> set (str_split_ws line) \<Longrightarrow> w \<noteq> [] \<and> (\<forall>c \<in> set w. \<not> isspace c)"
  unfolding str_split_ws_def using split_ws_from_tokens [of w "[]" line] by simp

lemma concat_split_ws_from:
  "concat (split_ws_from cur s) = rev cur @ filter (\<lambda>c. \<not> isspace c) s"
  by (induction s arbitrary: cur) simp_all

lemma concat_str_split_ws:
  "concat (str_split_ws line) = filter (\<lambda>c. \<not> isspace c) line"
  by (simp add: str_split_ws_def concat_split_ws_from)

lemma perplexity_loop_sums:
  "perplexity_loop score lines (s, n) =
     (s + sum_list (map score lines),
      n + sum_list (map (\<lambda>line. token_count line + 1) lines))"
  by (induction lines arbitrary: s n) (simp_all add: Let_def length_str_split_ws)

lemma doc_length_pos:
  "0 < sum_list (map (\<lambda>line. token_count line + 1) (str_split sep s))"
  by (cases "str_split sep s") (simp_all add: str_split_not_Nil)







section \<open>The composition of the checks\<close>

lemma check_lang_id_None: "check_lang_id langs sentence sc lang None cutoff = Inr True"
  by (simp add: check_lang_id_def)

lemma filtering_run_checks:
  "filtering langs sentence c_e sc c_s sp sp_cut c_sw sw mn mx c_bw bw bw_cut
        c_l lang model cutoff c_p km p_cut =
   run_checks
     [(c_e, \<lambda>_. Inr (check_empty sentence sc)),
      (c_s, \<lambda>_. check_special_characters sentence sp sp_cut),
      (c_sw, \<lambda>_. check_stopwords sentence sc sw mn mx),
      (c_bw, \<lambda>_. check_badwords sentence sc bw bw_cut),
      (c_l, \<lambda>_. check_lang_id langs sentence sc lang model cutoff),
      (c_p, \<lambda>_. check_perplexity sentence km p_cut)]"
  unfolding filtering_def
  by (cases c_e; cases c_s; cases c_sw; cases c_bw; cases c_l; cases c_p)
     (simp_all split: sum.splits)

lemma run_checks_True_iff:
  "run_checks cs = Inr True \<longleftrightarrow> (\<forall>c \<in> set cs. fst c \<longrightarrow> snd c () = Inr True)"
  by (induction cs rule: run_checks.induct) (auto split: sum.splits)

lemma run_checks_False_iff:
  "run_checks cs = Inr False \<longleftrightarrow>
     (\<exists>i < length cs. fst (cs ! i) \<and> snd (cs ! i) () = Inr False
        \<and> (\<forall>j < i. fst (cs ! j) \<longrightarrow> snd (cs ! j) () = Inr True))"
proof (induction cs rule: run_checks.induct)
  case 1
  then show ?case by simp
next
  case (2 enabled check rest)
  let ?R = "\<lambda>cs. \<exists>i < length cs. fst (cs ! i) \<and> snd (cs ! i) () = Inr False
        \<and> (\<forall>j < i. fst (cs ! j) \<longrightarrow> snd (cs ! j) () = Inr True)"
  have step: "?R ((enabled, check) # rest) \<longleftrightarrow>
      (enabled \<and> check () = Inr False) \<or> ((enabled \<longrightarrow> check () = Inr True) \<and> ?R rest)"
    (is "?L \<longleftrightarrow> ?A \<or> ?B")
  proof
    assume ?L
    then obtain i where i: "i < length ((enabled, check) # rest)"
      "fst (((enabled, check) # rest) ! i)" "snd (((enabled, check) # rest) ! i) () = Inr False"
      "\<forall>j < i. fst (((enabled, check) # rest) ! j) \<longrightarrow> snd (((enabled, check) # rest) ! j) () = Inr True"
      by blast
    show "?A \<or> ?B"
    proof (cases i)
      case 0
      with i show ?thesis by simp
    next
      case (Suc k)
      with i(4) have h: "enabled \<longrightarrow> check () = Inr True" by (auto dest: spec [of _ 0])
      have "\<forall>j < k. fst (rest ! j) \<longrightarrow> snd (rest ! j) () = Inr True"
      proof (intro allI impI)
        fix j assume "j < k" "fst (rest ! j)"
        with i(4) Suc show "snd (rest ! j) () = Inr True" by (auto dest: spec [of _ "Suc j"])
      qed
      with i Suc have "?R rest" by auto
      with h show ?thesis by simp
    qed
  next
    assume "?A \<or> ?B"
    then show ?L
    proof
      assume ?A
      then have "0 < length ((enabled, check) # rest) \<and> fst (((enabled, check) # rest) ! 0)
         \<and> snd (((enabled, check) # rest) ! 0) () = Inr False
         \<and> (\<forall>j < 0. fst (((enabled, check) # rest) ! j) \<longrightarrow> snd (((enabled, check) # rest) ! j) () = Inr True)"
        by simp
      then show ?L by blast
    next
      assume b: ?B
      then obtain i where i: "i < length rest" "fst (rest ! i)" "snd (rest ! i) () = Inr False"
        "\<forall>j < i. fst (rest ! j) \<longrightarrow> snd (rest ! j) () = Inr True" by blast
      have "\<forall>j < Suc i. fst (((enabled, check) # rest) ! j) \<longrightarrow> snd (((enabled, check) # rest) ! j) () = Inr True"
      proof (intro allI impI)
        fix j assume j: "j < Suc i" "fst (((enabled, check) # rest) ! j)"
        show "snd (((enabled, check) # rest) ! j) () = Inr True"
          using j i(4) b by (cases j) auto
      qed
      with i have "Suc i < length ((enabled, check) # rest) \<and> fst (((enabled, check) # rest) ! Suc i)
         \<and> snd (((enabled, check) # rest) ! Suc i) () = Inr False
         \<and> (\<forall>j < Suc i. fst (((enabled, check) # rest) ! j) \<longrightarrow> snd (((enabled, check) # rest) ! j) () = Inr True)"
        by simp
      then show ?L by blast
    qed
  qed
  show ?case
  proof (cases enabled)
    case False
    with 2 step show ?thesis by simp
  next
    case True
    note en = this
    show ?thesis
    proof (cases "check ()")
      case (Inl e)
      with en step show ?thesis by simp
    next
      case (Inr ok)
      show ?thesis
      proof (cases ok)
        case True
        with en Inr 2(1) step show ?thesis by simp
      next
        case False
        with en Inr step show ?thesis by simp
      qed
    qed
  qed
qed

text \<open>
  Claim C1. For every sentence and every value of the six toggles, \<open>filtering\<close> is the
  loop over the checks in the order empty, special characters, stopwords, badwords,
  language id, perplexity. It returns \<open>False\<close> exactly when some enabled check fails and
  every enabled check before it passes, whatever the later checks would do; it returns
  \<open>True\<close> exactly when every enabled check passes, in particular when none is enabled.
\<close>

theorem filtering_first_failure:
  "(let cs = [(c_e, \<lambda>_. Inr (check_empty sentence sc)),
              (c_s, \<lambda>_. check_special_characters sentence sp sp_cut),
              (c_sw, \<lambda>_. check_stopwords sentence sc sw mn mx),
              (c_bw, \<lambda>_. check_badwords sentence sc bw bw_cut),
              (c_l, \<lambda>_. check_lang_id langs sentence sc lang model cutoff),
              (c_p, \<lambda>_. check_perplexity sentence km p_cut)];
        verdict = filtering langs sentence c_e sc c_s sp sp_cut c_sw sw mn mx c_bw bw bw_cut
                    c_l lang model cutoff c_p km p_cut
    in verdict = run_checks cs
       \<and> (verdict = Inr False \<longleftrightarrow>
            (\<exists>i < length cs. fst (cs ! i) \<and> snd (cs ! i) () = Inr False
               \<and> (\<forall>j < i. fst (cs ! j) \<longrightarrow> snd (cs ! j) () = Inr True)))
       \<and> (verdict = Inr True \<longleftrightarrow> (\<forall>c \<in> set cs. fst c \<longrightarrow> snd c () = Inr True)))"
  unfolding Let_def filtering_run_checks
  using run_checks_False_iff run_checks_True_iff by blast

text \<open>
  On a blank sentence the empty check fails first and the verdict is \<open>False\<close>, although
  the special-character check would raise there; on \<open>a!\<close> the special-character check
  is the first to fail; on \<open>ab\<close> both enabled checks pass.
\<close>

theorem filtering_first_failure_witness:
  "filtering [] '' '' True [] True ''!'' (3 / 10) False None 0 1 False None 0
     False ''en'' None 0 False None 0 = Inr False
   \<and> check_special_characters '' '' ''!'' (3 / 10) = Inl ZeroDivisionError
   \<and> filtering [] ''a!'' True [] True ''!'' (3 / 10) False None 0 1 False None 0
     False ''en'' None 0 False None 0 = Inr False
   \<and> filtering [] ''ab'' True [] True ''!'' (3 / 10) False None 0 1 False None 0
     False ''en'' None 0 False None 0 = Inr True"
proof -
  have e1: "check_empty '' '' [] = False" by code_simp
  have e2: "check_empty ''a!'' [] = True" by code_simp
  have e3: "check_empty ''ab'' [] = True" by code_simp
  have l1: "lower_strip_sentence '' '' = []" by code_simp
  have l2: "lower_strip_sentence ''a!'' = ''a!''" by code_simp
  have l3: "lower_strip_sentence ''ab'' = ''ab''" by code_simp
  have s1: "check_special_characters '' '' ''!'' (3 / 10) = Inl ZeroDivisionError"
    by (simp add: check_special_characters_def l1 truediv_def)
  have s2: "check_special_characters ''a!'' ''!'' (3 / 10) = Inr False"
    by (simp add: check_special_characters_def l2 truediv_def)
  have s3: "check_special_characters ''ab'' ''!'' (3 / 10) = Inr True"
    by (simp add: check_special_characters_def l3 truediv_def)
  show ?thesis
    using filtering_first_failure [where langs = "[]" and sentence = "'' ''" and c_e = True and sc = "[]"
        and c_s = True and sp = "''!''" and sp_cut = "3 / 10" and c_sw = False and sw = None
        and mn = 0 and mx = 1 and c_bw = False and bw = None and bw_cut = 0 and c_l = False
        and lang = "''en''" and model = None and cutoff = 0 and c_p = False and km = None
        and p_cut = 0]
      filtering_first_failure [where langs = "[]" and sentence = "''a!''" and c_e = True and sc = "[]"
        and c_s = True and sp = "''!''" and sp_cut = "3 / 10" and c_sw = False and sw = None
        and mn = 0 and mx = 1 and c_bw = False and bw = None and bw_cut = 0 and c_l = False
        and lang = "''en''" and model = None and cutoff = 0 and c_p = False and km = None
        and p_cut = 0]
      filtering_first_failure [where langs = "[]" and sentence = "''ab''" and c_e = True and sc = "[]"
        and c_s = True and sp = "''!''" and sp_cut = "3 / 10" and c_sw = False and sw = None
        and mn = 0 and mx = 1 and c_bw = False and bw = None and bw_cut = 0 and c_l = False
        and lang = "''en''" and model = None and cutoff = 0 and c_p = False and km = None
        and p_cut = 0]
    by (simp add: Let_def e1 e2 e3 s1 s2 s3)
qed

lemma run_checks_error:
  "run_checks cs = Inl e \<Longrightarrow> \<exists>c \<in> set cs. fst c \<and> snd c () = Inl e"
  by (induction cs rule: run_checks.induct) (auto split: sum.splits if_splits)

lemma check_special_characters_guarded:
  "check_empty s sc \<Longrightarrow> \<exists>ok. check_special_characters s sp c0 = Inr ok"
  by (auto simp add: check_empty_iff check_special_characters_def truediv_def Let_def)

lemma check_stopwords_verdict: "\<exists>ok. check_stopwords s sc sw mn mx = Inr ok"
  by (auto simp add: check_stopwords_def truediv_words Let_def)

lemma check_badwords_verdict: "\<exists>ok. check_badwords s sc bw c0 = Inr ok"
  by (auto simp add: check_badwords_def truediv_words Let_def)

lemma check_lang_id_no_zero_div:
  "check_lang_id langs s sc lang model c0 \<noteq> Inl ZeroDivisionError"
  by (auto simp add: check_lang_id_def Let_def split: option.splits list.splits)

lemma check_perplexity_no_zero_div: "check_perplexity s km c0 \<noteq> Inl ZeroDivisionError"
proof (cases km)
  case None
  then show ?thesis by (simp add: check_perplexity_def)
next
  case (Some score)
  with doc_length_pos [of newline s] show ?thesis
    by (simp add: check_perplexity_def get_perplexity_score_def perplexity_loop_sums
          pow10_def str_split_not_Nil)
qed

text \<open>
  Claim C2. With the empty check enabled, a sentence whose normalized text is empty is
  rejected by \<open>filtering\<close>; the special-character check, reached only after the empty
  check has passed, divides by a positive length and returns a verdict; and \<open>filtering\<close>
  never ends with a division by zero.
\<close>

theorem empty_check_guards_division:
  "(lower_strip_sentence sentence = [] \<longrightarrow>
      filtering langs sentence True sc c_s sp sp_cut c_sw sw mn mx c_bw bw bw_cut
        c_l lang model cutoff c_p km p_cut = Inr False)
   \<and> (check_empty sentence sc \<longrightarrow> (\<exists>ok. check_special_characters sentence sp sp_cut = Inr ok))
   \<and> filtering langs sentence True sc c_s sp sp_cut c_sw sw mn mx c_bw bw bw_cut
        c_l lang model cutoff c_p km p_cut \<noteq> Inl ZeroDivisionError"
proof (intro conjI impI)
  assume "lower_strip_sentence sentence = []"
  then show "filtering langs sentence True sc c_s sp sp_cut c_sw sw mn mx c_bw bw bw_cut
        c_l lang model cutoff c_p km p_cut = Inr False"
    by (simp add: filtering_def check_empty_iff)
next
  assume "check_empty sentence sc"
  then show "\<exists>ok. check_special_characters sentence sp sp_cut = Inr ok"
    by (rule check_special_characters_guarded)
next
  show "filtering langs sentence True sc c_s sp sp_cut c_sw sw mn mx c_bw bw bw_cut
        c_l lang model cutoff c_p km p_cut \<noteq> Inl ZeroDivisionError"
  proof (cases "check_empty sentence sc")
    case False
    then show ?thesis by (simp add: filtering_def)
  next
    case True
    show ?thesis
    proof
      assume "filtering langs sentence True sc c_s sp sp_cut c_sw sw mn mx c_bw bw bw_cut
        c_l lang model cutoff c_p km p_cut = Inl ZeroDivisionError"
      from run_checks_error [OF this [unfolded filtering_run_checks]]
      show False
        using check_special_characters_guarded [OF True, of sp sp_cut]
          check_stopwords_verdict [of sentence sc sw mn mx]
          check_badwords_verdict [of sentence sc bw bw_cut]
          check_lang_id_no_zero_div [of langs sentence sc lang model cutoff]
          check_perplexity_no_zero_div [of sentence km p_cut]
        by auto
    qed
  qed
qed

text \<open>
  A sentence of two spaces is rejected, with the ratio checks enabled; \<open>A!\<close> passes the
  empty check and its special-character ratio is computed.
\<close>

theorem empty_check_guards_division_witness:
  "filtering [] ''  '' True [] True ''!'' (3 / 10) True (Some {''the''}) 0 1 True None 0
     False ''en'' None 0 False None 0 = Inr False
   \<and> filtering [] ''A!'' True [] True ''!'' (3 / 10) False None 0 1 False None 0
     False ''en'' None 0 False None 0 \<noteq> Inl ZeroDivisionError
   \<and> (\<exists>ok. check_special_characters ''A!'' ''!'' (3 / 10) = Inr ok)"
proof -
  have l: "lower_strip_sentence ''  '' = []" by code_simp
  have e: "check_empty ''A!'' []" by code_simp
  show ?thesis
    using empty_check_guards_division [where langs = "[]" and sentence = "''  ''" and sc = "[]"
        and c_s = True and sp = "''!''" and sp_cut = "3 / 10" and c_sw = True
        and sw = "Some {''the''}" and mn = 0 and mx = 1 and c_bw = True and bw = None
        and bw_cut = 0 and c_l = False and lang = "''en''" and model = None and cutoff = 0
        and c_p = False and km = None and p_cut = 0]
      empty_check_guards_division [where langs = "[]" and sentence = "''A!''" and sc = "[]"
        and c_s = True and sp = "''!''" and sp_cut = "3 / 10" and c_sw = False
        and sw = None and mn = 0 and mx = 1 and c_bw = False and bw = None
        and bw_cut = 0 and c_l = False and lang = "''en''" and model = None and cutoff = 0
        and c_p = False and km = None and p_cut = 0]
    by (simp add: l e)
qed

text \<open>
  Claim C8. Without a language-identification model, \<open>check_lang_id\<close> returns \<open>True\<close> for
  every sentence, and \<open>filtering\<close> gives the verdict that it gives with the language-id
  check disabled: that check never causes a rejection.
\<close>

theorem check_lang_id_no_model:
  "check_lang_id langs sentence sc lang None cutoff = Inr True
   \<and> filtering langs sentence c_e sc c_s sp sp_cut c_sw sw mn mx c_bw bw bw_cut
        c_l lang None cutoff c_p km p_cut
     = filtering langs sentence c_e sc c_s sp sp_cut c_sw sw mn mx c_bw bw bw_cut
        False lang None cutoff c_p km p_cut"
  by (cases c_l) (simp_all add: check_lang_id_None filtering_run_checks split: sum.splits)

section \<open>The document\<close>

text \<open>
  Claim C10. On an example with a text field, \<open>OscarModifyingSentences.__call__\<close> returns
  the example with the text rewritten by \<open>modifying_sentences\<close>; every other key keeps
  its value and no key is added or removed.
\<close>

theorem call_frame:
  assumes "example ''text'' = Some (Str t)"
  shows "\<exists>example'. oscar_modifying_sentences_call self example = Inr example'
           \<and> example' ''text'' = Some (Str (modifying_sentences t
                 (cond_remove_words_with_incorrect_substrings (oms_param self))
                 (incorrect_word_substrings (oms_param self))
                 (cond_remove_long_words (oms_param self))
                 (length_word_cutoff (oms_param self))))
           \<and> (\<forall>k. k \<noteq> ''text'' \<longrightarrow> example' k = example k)
           \<and> dom example' = dom example"
  using assms by (auto simp add: oscar_modifying_sentences_call_def)

text \<open>An example with a text and an id: the text is rewritten and the id is kept.\<close>

theorem call_frame_witness:
  "\<exists>example'.
     oscar_modifying_sentences_call
       \<lparr>oms_lang_oscar_id = ''af'',
        oms_param = \<lparr>cond_remove_words_with_incorrect_substrings = True,
          incorrect_word_substrings = [''http''], cond_remove_long_words = True,
          length_word_cutoff = 5, cond_check_empty = True, strip_characters = [],
          cond_check_special_characters = True, special_characters = ''!'',
          special_characters_cutoff = 3 / 10, cond_check_stopwords = False,
          stopwords_min_cutoff = 0, stopwords_max_cutoff = 1, cond_check_badwords = False,
          badwords_cutoff = 1, cond_check_lang_id = False, lang_id_cutoff = 0,
          cond_check_perplexity = False, perplexity_cutoff = 0\<rparr>\<rparr>
       [''text'' \<mapsto> Str ''aa http://x bbbbbb c'', ''id'' \<mapsto> Other (7 :: int)]
       = Inr example'
     \<and> example' ''text'' = Some (Str ''aa c'')
     \<and> example' ''id'' = Some (Other 7)
     \<and> dom example' = {''text'', ''id''}"
proof -
  have m: "modifying_sentences ''aa http://x bbbbbb c'' True [''http''] True 5 = ''aa c''"
    by code_simp
  have t: "[''text'' \<mapsto> Str ''aa http://x bbbbbb c'', ''id'' \<mapsto> Other (7 :: int)] ''text''
             = Some (Str ''aa http://x bbbbbb c'')"
    by simp
  show ?thesis
    using call_frame [where example = "[''text'' \<mapsto> Str ''aa http://x bbbbbb c'', ''id'' \<mapsto> Other (7 :: int)]"
        and t = "''aa http://x bbbbbb c''"
        and self = "\<lparr>oms_lang_oscar_id = ''af'',
        oms_param = \<lparr>cond_remove_words_with_incorrect_substrings = True,
          incorrect_word_substrings = [''http''], cond_remove_long_words = True,
          length_word_cutoff = 5, cond_check_empty = True, strip_characters = [],
          cond_check_special_characters = True, special_characters = ''!'',
          special_characters_cutoff = 3 / 10, cond_check_stopwords = False,
          stopwords_min_cutoff = 0, stopwords_max_cutoff = 1, cond_check_badwords = False,
          badwords_cutoff = 1, cond_check_lang_id = False, lang_id_cutoff = 0,
          cond_check_perplexity = False, perplexity_cutoff = 0\<rparr>\<rparr>", OF t]
    by (auto simp add: m)
qed

end
